theory Spec2Isabelle
  imports Complex_Main
begin

section \<open>Values, errors and the numpy operations the notebook calls\<close>

text \<open>
  The notebook \<^verbatim>\<open>analysis.ipynb\<close> works on numpy arrays of float64. A float64 is
  modelled as a real number, or \<open>NaN\<close> where numpy produces nan (the mean of an empty
  array). Arithmetic is exact: rounding, infinities and signed zeros are left out. An
  array of points (shape N x 2) is a list of pairs, an array of features (shape N x 8)
  a list of rows of 8 entries. An exception is the \<open>Inl\<close> of a sum, with one
  constructor per exception and message the notebook's calls can raise.
\<close>

type_synonym point = "real \<times> real"

datatype float64 = NaN | Val real

datatype py_error =
    IndexError_out_of_bounds
  | IndexError_too_many_indices
  | ValueError_zero_size_reduction
  | ValueError_k
  | IndexError_mask_length
  | ValueError_no_samples
  | ValueError_reshape
  | CalledProcessError nat

definition then_do :: "'err + 'v \<Rightarrow> ('v \<Rightarrow> 'err + 'w) \<Rightarrow> 'err + 'w" where
  "then_do r f = (case r of Inl e \<Rightarrow> Inl e | Inr v \<Rightarrow> f v)"

text \<open>A \<^verbatim>\<open>for\<close> loop that fills one output row per element and stops at the first exception.\<close>

fun for_each :: "('a \<Rightarrow> 'e + 'b) \<Rightarrow> 'a list \<Rightarrow> 'e + 'b list" where
  "for_each f [] = Inr []"
| "for_each f (x # xs) =
     then_do (f x) (\<lambda>row. then_do (for_each f xs) (\<lambda>rows. Inr (row # rows)))"

text \<open>\<^verbatim>\<open>np.mean\<close> and \<^verbatim>\<open>np.std\<close>: nan (with a warning, no exception) on an empty array.\<close>

definition np_mean :: "real list \<Rightarrow> float64" where
  "np_mean xs = (if xs = [] then NaN else Val (sum_list xs / real (length xs)))"

definition np_std :: "real list \<Rightarrow> float64" where
  "np_std xs =
     (if xs = [] then NaN
      else let m = sum_list xs / real (length xs)
           in Val (sqrt (sum_list (map (\<lambda>x. (x - m)\<^sup>2) xs) / real (length xs))))"

text \<open>\<^verbatim>\<open>np.min\<close>, \<^verbatim>\<open>np.max\<close>: ValueError on an empty array (a reduction with no identity).\<close>

definition np_min :: "real list \<Rightarrow> py_error + real" where
  "np_min xs = (case xs of [] \<Rightarrow> Inl ValueError_zero_size_reduction | x # r \<Rightarrow> Inr (fold min r x))"

definition np_max :: "real list \<Rightarrow> py_error + real" where
  "np_max xs = (case xs of [] \<Rightarrow> Inl ValueError_zero_size_reduction | x # r \<Rightarrow> Inr (fold max r x))"

text \<open>\<^verbatim>\<open>np.diff\<close>: consecutive differences, one fewer than the elements.\<close>

definition np_diff :: "real list \<Rightarrow> real list" where
  "np_diff xs = map2 (\<lambda>a b. b - a) xs (tl xs)"

text \<open>
  \<^verbatim>\<open>np.array(object, dtype)\<close>: the second positional parameter is the element type. A
  float64 scalar passed there is read through its \<^verbatim>\<open>dtype\<close> attribute, so its value is
  dropped and the array comes back as float64, unchanged.
\<close>

definition np_array :: "real list \<Rightarrow> real \<Rightarrow> real list" where
  "np_array object dtype = object"

text \<open>Indexing an array with an array of indices: IndexError when one is out of bounds.\<close>

definition np_take :: "'a list \<Rightarrow> nat list \<Rightarrow> py_error + 'a list" where
  "np_take a idx =
     (if list_all (\<lambda>j. j < length a) idx then Inr (map (\<lambda>j. a ! j) idx)
      else Inl IndexError_out_of_bounds)"

text \<open>
  Indexing with a boolean mask keeps the rows where the mask is True, in order; a mask
  of another length than the array is an IndexError.
\<close>

definition np_mask :: "'a list \<Rightarrow> bool list \<Rightarrow> py_error + 'a list" where
  "np_mask a keep =
     (if length keep = length a then Inr (map fst (filter snd (zip a keep)))
      else Inl IndexError_mask_length)"

text \<open>\<^verbatim>\<open>a.reshape((h, w))\<close> of a flat array, row by row.\<close>

definition np_reshape :: "'a list \<Rightarrow> nat \<Rightarrow> nat \<Rightarrow> py_error + 'a list list" where
  "np_reshape a h w =
     (if length a = h * w then Inr (map (\<lambda>y. take w (drop (y * w) a)) [0..<h])
      else Inl ValueError_reshape)"

text \<open>\<^verbatim>\<open>features[:, c]\<close>: one column of a two-dimensional array.\<close>

definition column :: "nat \<Rightarrow> 'a list list \<Rightarrow> 'a list" where
  "column c features = map (\<lambda>row. row ! c) features"

text \<open>Comparison of a float64 with a number: False on nan.\<close>

definition f64_ge :: "float64 \<Rightarrow> real \<Rightarrow> bool" where
  "f64_ge v c = (case v of NaN \<Rightarrow> False | Val x \<Rightarrow> c \<le> x)"

text \<open>\<^verbatim>\<open>%\<close> on floats takes the sign of the divisor.\<close>

definition np_remainder :: "real \<Rightarrow> real \<Rightarrow> real" where
  "np_remainder a m = a - m * of_int \<lfloor>a / m\<rfloor>"

definition arctan2 :: "real \<Rightarrow> real \<Rightarrow> real" where
  "arctan2 y x =
     (if 0 < x then arctan (y / x)
      else if x < 0 \<and> 0 \<le> y then arctan (y / x) + pi
      else if x < 0 then arctan (y / x) - pi
      else if 0 < y then pi / 2
      else if y < 0 then - (pi / 2)
      else 0)"

text \<open>\<^verbatim>\<open>np.linalg.norm\<close> of one row (axis=1).\<close>

definition norm2 :: "point \<Rightarrow> real" where
  "norm2 d = sqrt ((fst d)\<^sup>2 + (snd d)\<^sup>2)"

section \<open>The k-d tree queries\<close>

text \<open>
  \<^verbatim>\<open>cKDTree(data).query(x, k, distance_upper_bound)\<close> is scipy's. The functions below
  compute its documented result, which the specification restates: for each query point
  the indices of the (at most) k nearest data points at a distance below the bound,
  nearest first, and the index \<^verbatim>\<open>n\<close> (the number of data points) in every place where
  no neighbour was found. The tree is represented by the array it was built over. Among
  points at equal distance the library's order is its own; here they are taken by
  index, and no statement below depends on that order.
\<close>

definition within_bound :: "real option \<Rightarrow> real \<Rightarrow> bool" where
  "within_bound ub d = (case ub of None \<Rightarrow> True | Some r \<Rightarrow> d < r)"

definition distance :: "point \<Rightarrow> point \<Rightarrow> real" where
  "distance p q = norm2 (fst q - fst p, snd q - snd p)"

definition found_neighbors :: "point list \<Rightarrow> point \<Rightarrow> nat \<Rightarrow> real option \<Rightarrow> nat list" where
  "found_neighbors data x k ub =
     take k (sort_key (\<lambda>j. distance x (data ! j))
               (filter (\<lambda>j. within_bound ub (distance x (data ! j))) [0..<length data]))"

definition query_row :: "point list \<Rightarrow> point \<Rightarrow> nat \<Rightarrow> real option \<Rightarrow> nat list" where
  "query_row data x k ub =
     (let found = found_neighbors data x k ub
      in found @ replicate (k - length found) (length data))"

section \<open>Neighbourhood features\<close>

text \<open>Lines 366 and 367 of the notebook: the sorted angles and their increments.\<close>

definition angle_increments_of :: "real list \<Rightarrow> py_error + real list" where
  "angle_increments_of angles =
     then_do (np_min angles) (\<lambda>first.
       let sorted_angles = np_array (sort angles) (first + 2 * pi)
       in Inr (np_diff sorted_angles))"

text \<open>The body of the loop of \<^verbatim>\<open>get_nn_features\<close> for one point.\<close>

definition point_features :: "point list \<Rightarrow> nat \<Rightarrow> nat list \<Rightarrow> py_error + float64 list" where
  "point_features coordinates point_index nns0 =
     (let nns = filter (\<lambda>j. j \<noteq> length coordinates) nns0
      in then_do (np_take coordinates nns) (\<lambda>nn_coords.
         let point_coords = coordinates ! point_index;
             difference_vectors =
               map (\<lambda>q. (fst q - fst point_coords, snd q - snd point_coords)) nn_coords;
             lengths = map norm2 difference_vectors;
             average_length = np_mean lengths;
             std_length = np_std lengths;
             angles = map (\<lambda>d. np_remainder (arctan2 (snd d) (fst d)) (2 * pi)) difference_vectors
         in then_do (angle_increments_of angles) (\<lambda>angle_increments.
            let average_increment = np_mean angle_increments;
                std_increment = np_std angle_increments
            in then_do (np_min angles) (\<lambda>min_angle.
               let vertices = length nns
               in then_do (np_min lengths) (\<lambda>lengths_min.
                  then_do (np_max lengths) (\<lambda>lengths_max.
                    Inr [average_length, std_length, average_increment, std_increment,
                         Val min_angle, Val (real vertices), Val lengths_min, Val lengths_max]))))))"

text \<open>
  \<^verbatim>\<open>get_nn_features(coordinates, max_distance, k)\<close>. The tree it queries is the notebook's
  global \<^verbatim>\<open>tree_c\<close>, here the first parameter. With \<open>k = 1\<close> the query returns
  one-dimensional arrays, which \<^verbatim>\<open>[:, 1:]\<close> cannot index; the library rejects \<open>k = 0\<close>.
\<close>

definition get_nn_features :: "point list \<Rightarrow> point list \<Rightarrow> real \<Rightarrow> nat \<Rightarrow> py_error + float64 list list" where
  "get_nn_features tree_c coordinates max_distance k =
     (if k = 0 then Inl ValueError_k
      else if k = 1 then Inl IndexError_too_many_indices
      else let nearest_neighbor_indices =
                 map (\<lambda>x. drop 1 (query_row tree_c x k (Some max_distance))) coordinates
           in for_each (\<lambda>(point_index, nns). point_features coordinates point_index nns)
                (zip [0..<length nearest_neighbor_indices] nearest_neighbor_indices))"

text \<open>The loop body at index \<open>i\<close> when the array passed is the one the tree indexes.\<close>

definition row_of :: "point list \<Rightarrow> real \<Rightarrow> nat \<Rightarrow> nat \<Rightarrow> py_error + float64 list" where
  "row_of P r k i = point_features P i (drop 1 (query_row P (P ! i) k (Some r)))"

text \<open>
  What the specification counts: the neighbours of point \<open>i\<close> strictly within \<open>r\<close>,
  the point itself left out.
\<close>

definition neighbors_within :: "point list \<Rightarrow> nat \<Rightarrow> real \<Rightarrow> nat list" where
  "neighbors_within P i r = filter (\<lambda>j. j \<noteq> i \<and> distance (P ! i) (P ! j) < r) [0..<length P]"

text \<open>
  The increments as the specification (and the comment on line 366) describe them:
  sort the angles, append the first angle plus \<open>2\<pi>\<close>, take consecutive differences.
\<close>

definition spec_angle_increments :: "real list \<Rightarrow> real list" where
  "spec_angle_increments angles = np_diff (sort angles @ [hd (sort angles) + 2 * pi])"

section \<open>Interior points, rescaling and the columns used for clustering\<close>

text \<open>Lines 412, 413 and 436: the mask and the two arrays it filters.\<close>

definition off_edge :: "float64 list list \<Rightarrow> bool list" where
  "off_edge features = map (\<lambda>v. f64_ge v 5) (column 5 features)"

definition filtered_features :: "float64 list list \<Rightarrow> py_error + float64 list list" where
  "filtered_features features = np_mask features (off_edge features)"







section \<open>Label propagation\<close>

text \<open>
  Lines 570 to 575. \<^verbatim>\<open>np.mgrid\<close>, \<^verbatim>\<open>ravel\<close> and \<^verbatim>\<open>stack(...).T\<close> list the pixels row by
  row as (x, y); \<^verbatim>\<open>tree.query(coords)\<close> has the default \<open>k = 1\<close> and no distance bound,
  and returns one index per pixel.
\<close>

definition pixel_coords :: "nat \<Rightarrow> nat \<Rightarrow> point list" where
  "pixel_coords h w = concat (map (\<lambda>y. map (\<lambda>x. (real x, real y)) [0..<w]) [0..<h])"

definition query_nearest :: "point list \<Rightarrow> point \<Rightarrow> nat" where
  "query_nearest data x = hd (query_row data x 1 None)"

definition labeled_image :: "point list \<Rightarrow> int list \<Rightarrow> nat \<times> nat \<Rightarrow> py_error + int list list" where
  "labeled_image filtered_coords labels shape =
     (let coords = pixel_coords (fst shape) (snd shape);
          nearest_point = map (query_nearest filtered_coords) coords
      in then_do (np_take labels nearest_point) (\<lambda>classification.
           np_reshape classification (fst shape) (snd shape)))"

section \<open>The hash check\<close>

text \<open>
  The second \<^verbatim>\<open>%%bash\<close> cell. \<open>hash\<close> is the first field of the output of
  \<^verbatim>\<open>sha256sum\<close> (empty when the command printed nothing). Unquoted, \<^verbatim>\<open>$hash\<close> expands
  to no word when it is empty; the test \<^verbatim>\<open>[ ... == ... ]\<close> then has too few operands and
  returns 2. The cell's status is the status of the \<^verbatim>\<open>echo\<close> that ran. The cell magic
  raises when the script's status is not 0.
\<close>

definition expected_digest :: string where
  "expected_digest = ''777a5f480c5b10288bb9c83c12be440408e7dd25620adc56b5fad27bbfc65d05''"

definition bash_test_eq :: "string list \<Rightarrow> string \<Rightarrow> nat" where
  "bash_test_eq operands c = (case operands of [w] \<Rightarrow> (if w = c then 0 else 1) | _ \<Rightarrow> 2)"

definition hash_check_cell :: "string \<Rightarrow> string list \<times> nat" where
  "hash_check_cell hash =
     (if bash_test_eq (if hash = [] then [] else [hash]) expected_digest = 0
      then ([''Hash is ok''], 0)
      else ([''Wrong hash! This may be the wrong file, or it may have been tampered with.''], 0))"

definition bash_cell_magic :: "string list \<times> nat \<Rightarrow> py_error + string list" where
  "bash_cell_magic result =
     (if snd result = 0 then Inr (fst result) else Inl (CalledProcessError (snd result)))"

text \<open>The cells of a notebook run in order; an exception in one stops the run.\<close>

definition run_after_hash_check :: "string \<Rightarrow> (py_error + 'a) \<Rightarrow> py_error + 'a" where
  "run_after_hash_check hash later_cells =
     then_do (bash_cell_magic (hash_check_cell hash)) (\<lambda>printed. later_cells)"

section \<open>Example inputs\<close>

definition three_in_a_row :: "point list" where
  "three_in_a_row = [(0, 0), (1, 0), (2, 0)]"

definition isolated_point :: "point list" where
  "isolated_point = [(0, 0)]"

definition corner :: "point list" where
  "corner = [(0, 0), (1, 0), (0, 1)]"

definition seven_in_a_row :: "point list" where
  "seven_in_a_row = [(0, 0), (1, 0), (2, 0), (3, 0), (4, 0), (5, 0), (6, 0)]"

definition eleven_in_a_row :: "point list" where
  "eleven_in_a_row =
     [(0, 0), (1, 0), (2, 0), (3, 0), (4, 0), (5, 0), (6, 0), (7, 0), (8, 0), (9, 0), (10, 0)]"

definition two_labelled :: "point list" where
  "two_labelled = [(0, 0), (3, 0)]"

definition boundary_rows :: "float64 list list" where
  "boundary_rows =
     [[Val 1, Val 0, Val 1, Val 0, Val 0, Val 4, Val 1, Val 1],
      [Val 1, Val 0, Val 1, Val 0, Val 0, Val 5, Val 1, Val 1],
      [Val 1, Val 0, Val 1, Val 0, Val 0, Val 6, Val 1, Val 1]]"

definition hexagon :: "point list" where
  "hexagon = [(0, 0), (10, 0), (5, 5 * sqrt 3), (- 5, 5 * sqrt 3), (- 10, 0),
              (- 5, - (5 * sqrt 3)), (5, - (5 * sqrt 3))]"

definition hex_ring_angles :: "real list" where
  "hex_ring_angles = [0, pi / 3, 2 * pi / 3, pi, 4 * pi / 3, 5 * pi / 3]"

section \<open>Basic facts\<close>

lemma then_do_Inr [simp]: "then_do (Inr v) f = f v"
  by (simp add: then_do_def)

lemma then_do_Inl [simp]: "then_do (Inl e) f = Inl e"
  by (simp add: then_do_def)

lemma upt3: "[0..<3] = [0, 1, 2]"
  by (simp add: upt_rec)

lemma upt4: "[0..<4] = [0, 1, 2, 3]"
  by (simp add: upt_rec)

lemma upt7: "[0..<7] = [0, 1, 2, 3, 4, 5, 6]"
  by (simp add: upt_rec)

lemma upt11: "[0..<11] = [0, 1, 2, 3, 4, 5, 6, 7, 8, 9, 10]"
  by (simp add: upt_rec)

lemma all3: "(\<forall>i<3. Q i) \<longleftrightarrow> Q 0 \<and> Q (Suc 0) \<and> Q (2::nat)"
  by (auto simp: numeral_3_eq_3 less_Suc_eq numeral_2_eq_2)

lemma for_each_Inr_iff:
  "for_each f xs = Inr ys \<longleftrightarrow> length ys = length xs \<and> (\<forall>i<length xs. f (xs ! i) = Inr (ys ! i))"
proof (induction xs arbitrary: ys)
  case Nil
  then show ?case by auto
next
  case (Cons x xs)
  show ?case
  proof (cases ys)
    case Nil
    then show ?thesis by (auto simp: then_do_def split: sum.splits)
  next
    case (Cons y ys')
    then show ?thesis using Cons.IH[of ys']
      by (auto simp: then_do_def nth_Cons split: sum.splits nat.splits)
  qed
qed

lemma for_each_Inl:
  "\<forall>x\<in>set xs. f x = Inl e \<or> (\<exists>y. f x = Inr y) \<Longrightarrow> \<exists>x\<in>set xs. f x = Inl e \<Longrightarrow> for_each f xs = Inl e"
proof (induction xs)
  case Nil
  then show ?case by simp
next
  case (Cons x xs)
  show ?case
  proof (cases "f x")
    case (Inl e')
    with Cons.prems(1) show ?thesis by auto
  next
    case (Inr y)
    with Cons.prems have "\<exists>x\<in>set xs. f x = Inl e" by auto
    with Cons have "for_each f xs = Inl e" by auto
    with Inr show ?thesis by simp
  qed
qed

lemma for_each_Inl_source: "for_each f xs = Inl e \<Longrightarrow> \<exists>x\<in>set xs. f x = Inl e"
  by (induction xs) (auto simp: then_do_def split: sum.splits)

lemma for_each_total:
  "\<forall>x\<in>set xs. \<exists>y. f x = Inr y \<and> Q y \<Longrightarrow>
   \<exists>ys. for_each f xs = Inr ys \<and> length ys = length xs \<and> (\<forall>y\<in>set ys. Q y)"
  by (induction xs) auto

lemma for_each_map: "for_each g (map h xs) = for_each (\<lambda>x. g (h x)) xs"
  by (induction xs) (simp_all add: then_do_def split: sum.splits)

lemma np_min_empty [simp]: "np_min [] = Inl ValueError_zero_size_reduction"
  by (simp add: np_min_def)

lemma np_max_empty [simp]: "np_max [] = Inl ValueError_zero_size_reduction"
  by (simp add: np_max_def)

lemma np_min_nonempty: "xs \<noteq> [] \<Longrightarrow> np_min xs = Inr (fold min (tl xs) (hd xs))"
  by (cases xs) (simp_all add: np_min_def)

lemma np_max_nonempty: "xs \<noteq> [] \<Longrightarrow> np_max xs = Inr (fold max (tl xs) (hd xs))"
  by (cases xs) (simp_all add: np_max_def)

lemma np_take_valid: "\<forall>j\<in>set idx. j < length a \<Longrightarrow> np_take a idx = Inr (map (\<lambda>j. a ! j) idx)"
  by (simp add: np_take_def list_all_iff)

lemma distance_self [simp]: "distance p p = 0"
  by (simp add: distance_def norm2_def)

lemma distance_nonneg [simp]: "0 \<le> distance p q"
  by (simp add: distance_def norm2_def)

lemma distance_on_axis [simp]: "distance (a, 0) (b, 0) = \<bar>b - a\<bar>"
  by (simp add: distance_def norm2_def)

section \<open>What the query returns and what survives the sentinel filter\<close>

lemma found_neighbors_bound: "j \<in> set (found_neighbors data x k ub) \<Longrightarrow> j < length data"
  by (auto simp: found_neighbors_def dest!: in_set_takeD)

lemma length_found_neighbors:
  "length (found_neighbors data x k ub) =
     min k (length (filter (\<lambda>j. within_bound ub (distance x (data ! j))) [0..<length data]))"
  by (simp add: found_neighbors_def min.commute)

lemma surviving_indices:
  "filter (\<lambda>j. j \<noteq> length data) (drop 1 (query_row data x k ub)) = tl (found_neighbors data x k ub)"
proof (cases "found_neighbors data x k ub")
  case Nil
  then show ?thesis by (simp add: query_row_def Let_def)
next
  case (Cons a r)
  have "\<forall>j\<in>set r. j \<noteq> length data"
    using found_neighbors_bound[of _ data x k ub] Cons by auto
  then have "filter (\<lambda>j. j \<noteq> length data) r = r"
    by simp
  with Cons show ?thesis by (simp add: query_row_def Let_def)
qed

lemma surviving_indices_valid:
  "\<forall>j\<in>set (filter (\<lambda>j. j \<noteq> length data) (drop 1 (query_row data x k ub))). j < length data"
  unfolding surviving_indices
  by (metis found_neighbors_bound list.sel(2) list.set_sel(2))

lemma length_filter_split:
  "length (filter Q xs) =
     length (filter (\<lambda>j. j \<noteq> i \<and> Q j) xs) + length (filter (\<lambda>j. j = i \<and> Q j) xs)"
  by (induction xs) auto

lemma length_filter_eq_upt:
  "length (filter (\<lambda>j. j = i \<and> Q j) [0..<n]) = (if i < n \<and> Q i then 1 else 0)"
  by (induction n) auto

lemma neighbors_within_nonpos: "\<not> 0 < r \<Longrightarrow> neighbors_within P i r = []"
proof -
  assume "\<not> 0 < r"
  then have "\<And>j. \<not> distance (P ! i) (P ! j) < r"
    using distance_nonneg[of "P ! i"] by (smt (verit))
  then show ?thesis by (simp add: neighbors_within_def)
qed

lemma within_count:
  assumes "i < length P"
  shows "length (filter (\<lambda>j. within_bound (Some r) (distance (P ! i) (P ! j))) [0..<length P]) =
         (if 0 < r then Suc (length (neighbors_within P i r)) else 0)"
proof (cases "0 < r")
  case True
  then show ?thesis
    using assms
      length_filter_split[of "\<lambda>j. distance (P ! i) (P ! j) < r" "[0..<length P]" i]
    by (simp add: within_bound_def neighbors_within_def length_filter_eq_upt)
next
  case False
  then have "\<And>j. \<not> distance (P ! i) (P ! j) < r"
    using distance_nonneg[of "P ! i"] by (smt (verit))
  with False show ?thesis by (simp add: within_bound_def)
qed

lemma vertices_count:
  assumes "i < length P"
  shows "length (tl (found_neighbors P (P ! i) k (Some r))) =
         min (length (neighbors_within P i r)) (k - 1)"
proof (cases "0 < r")
  case True
  then show ?thesis
    by (simp add: length_found_neighbors within_count[OF assms])
next
  case False
  then show ?thesis
    by (simp add: length_found_neighbors within_count[OF assms] neighbors_within_nonpos)
qed

section \<open>The loop of get_nn_features\<close>

lemma point_features_no_neighbor:
  assumes "filter (\<lambda>j. j \<noteq> length coordinates) nns0 = []"
  shows "point_features coordinates i nns0 = Inl ValueError_zero_size_reduction"
  using assms by (simp add: point_features_def np_take_def angle_increments_of_def)

lemma point_features_some_neighbor:
  assumes valid: "\<forall>j\<in>set (filter (\<lambda>j. j \<noteq> length coordinates) nns0). j < length coordinates"
    and some: "filter (\<lambda>j. j \<noteq> length coordinates) nns0 \<noteq> []"
  shows "\<exists>row. point_features coordinates i nns0 = Inr row \<and> length row = 8 \<and>
           row ! 5 = Val (real (length (filter (\<lambda>j. j \<noteq> length coordinates) nns0)))"
  using some
  by (simp add: point_features_def np_take_valid[OF valid] angle_increments_of_def
      np_min_nonempty np_max_nonempty Let_def)

lemma get_nn_features_rows:
  "2 \<le> k \<Longrightarrow> get_nn_features P P r k = for_each (row_of P r k) [0..<length P]"
proof -
  assume k: "2 \<le> k"
  have "zip [0..<length P] (map (\<lambda>x. drop 1 (query_row P x k (Some r))) P)
        = map (\<lambda>i. (i, drop 1 (query_row P (P ! i) k (Some r)))) [0..<length P]"
    by (rule nth_equalityI) simp_all
  then show ?thesis using k
    by (simp add: get_nn_features_def row_of_def[abs_def] Let_def for_each_map)
qed

lemma row_of_cases:
  assumes "i < length P"
  shows "neighbors_within P i r = [] \<or> k \<le> 1 \<Longrightarrow> row_of P r k i = Inl ValueError_zero_size_reduction"
    and "neighbors_within P i r \<noteq> [] \<Longrightarrow> 2 \<le> k \<Longrightarrow>
         \<exists>row. row_of P r k i = Inr row \<and> length row = 8 \<and>
               row ! 5 = Val (real (min (length (neighbors_within P i r)) (k - 1)))"
proof -
  let ?nns0 = "drop 1 (query_row P (P ! i) k (Some r))"
  have surv: "filter (\<lambda>j. j \<noteq> length P) ?nns0 = tl (found_neighbors P (P ! i) k (Some r))"
    by (rule surviving_indices)
  have len: "length (filter (\<lambda>j. j \<noteq> length P) ?nns0) = min (length (neighbors_within P i r)) (k - 1)"
    by (simp only: surv vertices_count[OF assms])
  {
    assume "neighbors_within P i r = [] \<or> k \<le> 1"
    then have "length (filter (\<lambda>j. j \<noteq> length P) ?nns0) = 0"
      using len by auto
    then show "row_of P r k i = Inl ValueError_zero_size_reduction"
      unfolding row_of_def by (intro point_features_no_neighbor) simp
  }
  {
    assume ne: "neighbors_within P i r \<noteq> []" and k: "2 \<le> k"
    then have pos: "filter (\<lambda>j. j \<noteq> length P) ?nns0 \<noteq> []"
      using len by (cases "neighbors_within P i r") auto
    from point_features_some_neighbor[OF surviving_indices_valid pos] len
    show "\<exists>row. row_of P r k i = Inr row \<and> length row = 8 \<and>
               row ! 5 = Val (real (min (length (neighbors_within P i r)) (k - 1)))"
      unfolding row_of_def by simp
  }
qed

lemma row_of_not_out_of_bounds:
  assumes "i < length P"
  shows "row_of P r k i \<noteq> Inl IndexError_out_of_bounds"
proof (cases "neighbors_within P i r = [] \<or> k \<le> 1")
  case True
  from row_of_cases(1)[OF assms this] show ?thesis by simp
next
  case False
  then have "neighbors_within P i r \<noteq> []" "2 \<le> k" by auto
  from row_of_cases(2)[OF assms this] show ?thesis by auto
qed

lemma get_nn_features_returns:
  assumes k: "2 \<le> k" and all: "\<forall>i<length P. neighbors_within P i r \<noteq> []"
  shows "\<exists>feats. get_nn_features P P r k = Inr feats \<and> length feats = length P \<and>
           (\<forall>row\<in>set feats. length row = 8)"
proof -
  have "\<forall>i\<in>set [0..<length P]. \<exists>row. row_of P r k i = Inr row \<and> length row = 8"
    using row_of_cases(2)[of _ P r k] k all by (metis atLeastLessThan_iff set_upt)
  from for_each_total[OF this] show ?thesis
    by (simp add: get_nn_features_rows[OF k])
qed

lemma get_nn_features_row:
  assumes ret: "get_nn_features P P r k = Inr feats" and i: "i < length P"
  shows "2 \<le> k" and "row_of P r k i = Inr (feats ! i)" and "neighbors_within P i r \<noteq> []"
    and "length feats = length P"
proof -
  show k: "2 \<le> k"
    using ret by (cases "k = 0"; cases "k = 1") (auto simp: get_nn_features_def)
  from ret have fe: "for_each (row_of P r k) [0..<length P] = Inr feats"
    by (simp add: get_nn_features_rows[OF k])
  with i show row: "row_of P r k i = Inr (feats ! i)"
    by (simp add: for_each_Inr_iff)
  then show "neighbors_within P i r \<noteq> []"
    using row_of_cases(1)[OF i, of r k] by auto
  from fe show "length feats = length P"
    by (simp add: for_each_Inr_iff)
qed

lemma get_nn_features_vertices:
  assumes ret: "get_nn_features P P r k = Inr feats" and i: "i < length P"
  shows "length (feats ! i) = 8"
    and "feats ! i ! 5 = Val (real (min (length (neighbors_within P i r)) (k - 1)))"
  using row_of_cases(2)[OF i get_nn_features_row(3)[OF ret i] get_nn_features_row(1)[OF ret i]]
    get_nn_features_row(2)[OF ret i] by auto

lemma length_three_in_a_row [simp]: "length three_in_a_row = 3"
  by (simp add: three_in_a_row_def)

lemma three_in_a_row_returns:
  assumes "0 < r" and "1 < r" and "2 \<le> k"
  shows "\<exists>feats. get_nn_features three_in_a_row three_in_a_row r k = Inr feats \<and> length feats = 3"
proof -
  have "\<forall>i<3. neighbors_within three_in_a_row i r \<noteq> []"
    unfolding all3 using assms by (simp add: neighbors_within_def three_in_a_row_def upt3)
  then have "\<forall>i<length three_in_a_row. neighbors_within three_in_a_row i r \<noteq> []"
    by simp
  from get_nn_features_returns[OF assms(3) this] show ?thesis by auto
qed

lemma get_nn_features_length:
  assumes "get_nn_features P P r k = Inr feats"
  shows "2 \<le> k \<and> length feats = length P"
proof -
  have k: "2 \<le> k"
    using assms by (cases "k = 0"; cases "k = 1") (auto simp: get_nn_features_def)
  with assms show ?thesis
    by (simp add: get_nn_features_rows for_each_Inr_iff)
qed

lemma vertices_column:
  assumes "get_nn_features P P r k = Inr feats"
  shows "column 5 feats =
           map (\<lambda>i. Val (real (min (length (neighbors_within P i r)) (k - 1)))) [0..<length P]"
proof (rule nth_equalityI)
  show "length (column 5 feats) =
        length (map (\<lambda>i. Val (real (min (length (neighbors_within P i r)) (k - 1)))) [0..<length P])"
    using get_nn_features_length[OF assms] by (simp add: column_def)
next
  fix i assume "i < length (column 5 feats)"
  then have i: "i < length P" "i < length feats"
    using get_nn_features_length[OF assms] by (simp_all add: column_def)
  then show "column 5 feats ! i =
        map (\<lambda>i. Val (real (min (length (neighbors_within P i r)) (k - 1)))) [0..<length P] ! i"
    using get_nn_features_vertices(2)[OF assms i(1)] by (simp add: column_def)
qed

lemma eleven_neighbors:
  "map (\<lambda>i. length (neighbors_within eleven_in_a_row i 12)) [0..<11] = replicate 11 10"
  by (simp add: upt11 neighbors_within_def eleven_in_a_row_def numeral_eq_Suc)

section \<open>Properties of get_nn_features: neighbour count, errors, bounds\<close>

text \<open>
  C2, as amended. Whenever \<^verbatim>\<open>get_nn_features\<close> returns (the array passed being the
  one \<^verbatim>\<open>tree_c\<close> indexes), entry 5 of the row of point \<open>i\<close> is the number of neighbours of
  that point strictly within the search radius, the point itself left out, capped at
  \<open>k - 1\<close>: the smaller of the two numbers. In particular it is at most \<open>k - 1\<close>.
  The function does return when \<open>k\<close> is at least 2 and every point has such a
  neighbour.
\<close>

theorem vertices_is_capped_neighbor_count:
  "(get_nn_features P P r k = Inr feats \<longrightarrow>
      (\<forall>i<length P.
         feats ! i ! 5 = Val (real (min (length (neighbors_within P i r)) (k - 1))) \<and>
         min (length (neighbors_within P i r)) (k - 1) \<le> k - 1)) \<and>
   (2 \<le> k \<and> (\<forall>i<length P. neighbors_within P i r \<noteq> []) \<longrightarrow>
      (\<exists>feats. get_nn_features P P r k = Inr feats))"
proof (intro conjI impI allI)
  fix i assume "get_nn_features P P r k = Inr feats" and "i < length P"
  then show "feats ! i ! 5 = Val (real (min (length (neighbors_within P i r)) (k - 1)))"
    by (rule get_nn_features_vertices(2))
next
  fix i show "min (length (neighbors_within P i r)) (k - 1) \<le> k - 1" by simp
next
  assume "2 \<le> k \<and> (\<forall>i<length P. neighbors_within P i r \<noteq> [])"
  then show "\<exists>feats. get_nn_features P P r k = Inr feats"
    using get_nn_features_returns[of k P r] by blast
qed

theorem vertices_is_capped_neighbor_count_witness:
  "\<exists>feats. get_nn_features three_in_a_row three_in_a_row (3/2) 10 = Inr feats \<and>
     feats ! 1 ! 5 = Val 2"
proof -
  have nw: "neighbors_within three_in_a_row 0 (3/2) = [1]"
    "neighbors_within three_in_a_row (Suc 0) (3/2) = [0, 2]"
    "neighbors_within three_in_a_row 2 (3/2) = [1]"
    by (simp_all add: neighbors_within_def three_in_a_row_def upt3)
  then have "\<forall>i<3. neighbors_within three_in_a_row i (3/2) \<noteq> []"
    unfolding all3 by simp
  then have "(2::nat) \<le> 10 \<and>
      (\<forall>i<length three_in_a_row. neighbors_within three_in_a_row i (3/2) \<noteq> [])"
    by simp
  with vertices_is_capped_neighbor_count[of three_in_a_row "3/2" 10]
  obtain feats where f: "get_nn_features three_in_a_row three_in_a_row (3/2) 10 = Inr feats"
    by blast
  have "feats ! 1 ! 5 = Val 2"
    using vertices_is_capped_neighbor_count[of three_in_a_row "3/2" 10 feats] f nw by simp
  with f show ?thesis by blast
qed

text \<open>
  C2 as stated fails when more than \<open>k - 1\<close> neighbours lie within the radius. With the
  defaults \<open>k = 10\<close> and \<open>max_distance = 12\<close> and eleven points one unit apart on a
  line, every row has 9 in column 5, while every point (the first, for one) has ten
  neighbours strictly within distance 12.
\<close>

theorem capped_count_counterexample:
  "map_sum id (column 5) (get_nn_features eleven_in_a_row eleven_in_a_row 12 10)
     = Inr (replicate 11 (Val 9)) \<and>
   length (neighbors_within eleven_in_a_row 0 12) = 10"
proof -
  have len: "length eleven_in_a_row = 11" by (simp add: eleven_in_a_row_def)
  have n: "\<forall>i<11. length (neighbors_within eleven_in_a_row i 12) = 10"
  proof (intro allI impI)
    fix i :: nat assume "i < 11"
    then show "length (neighbors_within eleven_in_a_row i 12) = 10"
      using arg_cong[OF eleven_neighbors, of "\<lambda>xs. xs ! i"] by simp
  qed
  then have "\<forall>i<length eleven_in_a_row. neighbors_within eleven_in_a_row i 12 \<noteq> []"
    using len by auto
  from get_nn_features_returns[OF _ this, of 10]
  obtain feats where f: "get_nn_features eleven_in_a_row eleven_in_a_row 12 10 = Inr feats"
    by auto
  have "map (\<lambda>i. Val (real (min (length (neighbors_within eleven_in_a_row i 12)) (10 - 1)))) [0..<11]
        = map (\<lambda>i. Val 9) [0..<11]"
    using n by (intro map_cong) simp_all
  then have "column 5 feats = replicate 11 (Val 9)"
    using vertices_column[OF f] len by (simp add: map_replicate_const)
  with f n show ?thesis by simp
qed

text \<open>
  C3, as amended. With \<open>k\<close> at least 2: for the empty point set the result is the
  empty array. For a point set that \<^verbatim>\<open>tree_c\<close> indexes, the function returns an
  array of one row of 8 entries per point when every point has a neighbour strictly
  within the radius, and raises ValueError (the minimum of an empty array) as soon as
  some point has none.
\<close>

theorem get_nn_features_error_conditions:
  assumes k: "2 \<le> k"
  shows "get_nn_features tree_c [] r k = Inr [] \<and>
         ((\<exists>i<length P. neighbors_within P i r = []) \<longrightarrow>
            get_nn_features P P r k = Inl ValueError_zero_size_reduction) \<and>
         ((\<forall>i<length P. neighbors_within P i r \<noteq> []) \<longrightarrow>
            (\<exists>feats. get_nn_features P P r k = Inr feats \<and> length feats = length P \<and>
               (\<forall>row\<in>set feats. length row = 8)))"
proof (intro conjI impI)
  show "get_nn_features tree_c [] r k = Inr []"
    using k by (simp add: get_nn_features_def)
next
  assume "\<exists>i<length P. neighbors_within P i r = []"
  then obtain i where i: "i < length P" and none: "neighbors_within P i r = []"
    by blast
  have each: "\<forall>j\<in>set [0..<length P]. row_of P r k j = Inl ValueError_zero_size_reduction
                \<or> (\<exists>y. row_of P r k j = Inr y)"
  proof
    fix j assume "j \<in> set [0..<length P]"
    then have j: "j < length P" by simp
    show "row_of P r k j = Inl ValueError_zero_size_reduction \<or> (\<exists>y. row_of P r k j = Inr y)"
      using row_of_cases[OF j, of r k] k by (cases "neighbors_within P j r = []") auto
  qed
  have "\<exists>j\<in>set [0..<length P]. row_of P r k j = Inl ValueError_zero_size_reduction"
    using row_of_cases(1)[OF i, of r k] none i by auto
  from for_each_Inl[OF each this] show "get_nn_features P P r k = Inl ValueError_zero_size_reduction"
    by (simp add: get_nn_features_rows[OF k])
next
  assume "\<forall>i<length P. neighbors_within P i r \<noteq> []"
  from get_nn_features_returns[OF k this]
  show "\<exists>feats. get_nn_features P P r k = Inr feats \<and> length feats = length P \<and>
               (\<forall>row\<in>set feats. length row = 8)" .
qed

theorem get_nn_features_error_conditions_witness:
  "get_nn_features [] [] 12 10 = Inr [] \<and>
   get_nn_features [(0, 0), (1, 0), (20, 0)] [(0, 0), (1, 0), (20, 0)] 12 10
     = Inl ValueError_zero_size_reduction \<and>
   (\<exists>feats. get_nn_features three_in_a_row three_in_a_row 12 10 = Inr feats \<and> length feats = 3)"
proof -
  let ?P = "[(0, 0), (1, 0), (20, 0)] :: point list"
  have a: "\<exists>i<length ?P. neighbors_within ?P i 12 = []"
    by (rule exI[of _ 2]) (simp add: neighbors_within_def upt3)
  have "\<forall>i<3. neighbors_within three_in_a_row i 12 \<noteq> []"
    unfolding all3 by (simp add: neighbors_within_def three_in_a_row_def upt3)
  then have b: "\<forall>i<length three_in_a_row. neighbors_within three_in_a_row i 12 \<noteq> []"
    by simp
  have k: "(2::nat) \<le> 10" by simp
  show ?thesis
    using get_nn_features_error_conditions[OF k, of "[]" 12 ?P] a
      get_nn_features_error_conditions[OF k, of "[]" 12 three_in_a_row] b
    by auto
qed

text \<open>
  C3 as stated fails: a point with no valid neighbour within the radius makes the
  function raise. Here the point set is a single point, with the notebook's default
  parameters.
\<close>

theorem isolated_point_raises:
  "get_nn_features isolated_point isolated_point 12 10 = Inl ValueError_zero_size_reduction"
proof -
  have "neighbors_within isolated_point 0 12 = []"
    by (simp add: neighbors_within_def isolated_point_def)
  then have "row_of isolated_point 12 10 0 = Inl ValueError_zero_size_reduction"
    by (intro row_of_cases(1)) (simp_all add: isolated_point_def)
  then show ?thesis
    by (simp add: get_nn_features_rows isolated_point_def)
qed

text \<open>
  C8. The tree queried is a parameter of its own (the global \<^verbatim>\<open>tree_c\<close>), not built
  from \<open>coordinates\<close>. When it indexes \<open>coordinates\<close>, every index that survives the
  filter \<^verbatim>\<open>nns != coordinates.shape[0]\<close> is below the number of points, the lookup
  \<^verbatim>\<open>coordinates[nns]\<close> succeeds, and the function never raises the out-of-bounds
  IndexError. With another tree the lookup can fail: the last conjunct queries the tree
  of three points for a one-point array.
\<close>

theorem neighbor_lookup_in_bounds:
  assumes "tree_c = coordinates"
  shows "(\<forall>j\<in>set (filter (\<lambda>j. j \<noteq> length coordinates) (drop 1 (query_row tree_c x k ub))).
            j < length coordinates) \<and>
         np_take coordinates (filter (\<lambda>j. j \<noteq> length coordinates) (drop 1 (query_row tree_c x k ub)))
           = Inr (map (\<lambda>j. coordinates ! j)
                  (filter (\<lambda>j. j \<noteq> length coordinates) (drop 1 (query_row tree_c x k ub)))) \<and>
         get_nn_features tree_c coordinates r k \<noteq> Inl IndexError_out_of_bounds \<and>
         get_nn_features three_in_a_row isolated_point 12 10 = Inl IndexError_out_of_bounds"
proof -
  have "get_nn_features coordinates coordinates r k \<noteq> Inl IndexError_out_of_bounds"
  proof (cases "2 \<le> k")
    case True
    show ?thesis
    proof
      assume "get_nn_features coordinates coordinates r k = Inl IndexError_out_of_bounds"
      then have "for_each (row_of coordinates r k) [0..<length coordinates] = Inl IndexError_out_of_bounds"
        by (simp add: get_nn_features_rows[OF True])
      from for_each_Inl_source[OF this] row_of_not_out_of_bounds[of _ coordinates r k]
      show False by auto
    qed
  next
    case False
    then have "k = 0 \<or> k = 1" by auto
    then show ?thesis by (auto simp: get_nn_features_def)
  qed
  moreover have "get_nn_features three_in_a_row isolated_point 12 10 = Inl IndexError_out_of_bounds"
    by (simp add: get_nn_features_def isolated_point_def three_in_a_row_def query_row_def
        found_neighbors_def upt3 within_bound_def point_features_def np_take_def Let_def
        numeral_eq_Suc)
  ultimately show ?thesis
    using surviving_indices_valid[of coordinates x k ub]
      np_take_valid[OF surviving_indices_valid[of coordinates x k ub]] assms by simp
qed

theorem neighbor_lookup_in_bounds_witness:
  "get_nn_features three_in_a_row three_in_a_row 12 10 \<noteq> Inl IndexError_out_of_bounds \<and>
   np_take three_in_a_row
     (filter (\<lambda>j. j \<noteq> length three_in_a_row) (drop 1 (query_row three_in_a_row (0, 0) 10 (Some 12))))
     = Inr [(1, 0), (2, 0)]"
proof -
  have "filter (\<lambda>j. j \<noteq> length three_in_a_row) (drop 1 (query_row three_in_a_row (0, 0) 10 (Some 12)))
        = [1, 2]"
    by (simp add: three_in_a_row_def query_row_def found_neighbors_def upt3 within_bound_def
        Let_def numeral_eq_Suc)
  then show ?thesis
    using neighbor_lookup_in_bounds[of three_in_a_row three_in_a_row "(0, 0)" 10 "Some 12" 12]
    by (simp add: three_in_a_row_def)
qed

section \<open>Properties of the angular increments\<close>

lemma sum_list_np_diff: "xs \<noteq> [] \<Longrightarrow> sum_list (np_diff xs) = last xs - hd xs"
proof (induction xs rule: induct_list012)
  case 1
  then show ?case by simp
next
  case (2 x)
  then show ?case by (simp add: np_diff_def)
next
  case (3 x y zs)
  then show ?case by (simp add: np_diff_def)
qed

lemma length_np_diff [simp]: "length (np_diff xs) = length xs - 1"
  by (simp add: np_diff_def)

lemma angle_increments_of_nonempty:
  "angles \<noteq> [] \<Longrightarrow> angle_increments_of angles = Inr (np_diff (sort angles))"
  by (simp add: angle_increments_of_def np_min_nonempty np_array_def)

text \<open>What the code computes: one increment fewer than neighbours, summing to last minus first.\<close>

lemma code_increments_sum:
  assumes "angles \<noteq> []"
  shows "\<exists>incs. angle_increments_of angles = Inr incs \<and> length incs = length angles - 1 \<and>
           sum_list incs = last (sort angles) - hd (sort angles)"
proof -
  have "sort angles \<noteq> []" using assms by (metis length_0_conv length_sort)
  then show ?thesis
    using assms by (simp add: angle_increments_of_nonempty sum_list_np_diff)
qed

text \<open>What the specification describes: as many increments as neighbours, summing to \<open>2\<pi>\<close>.\<close>

lemma spec_increments_sum:
  assumes "angles \<noteq> []"
  shows "length (spec_angle_increments angles) = length angles \<and>
         sum_list (spec_angle_increments angles) = 2 * pi"
proof -
  have ne: "sort angles \<noteq> []" using assms by (metis length_0_conv length_sort)
  then have "hd (sort angles @ [hd (sort angles) + 2 * pi]) = hd (sort angles)"
    by simp
  then show ?thesis
    using sum_list_np_diff[of "sort angles @ [hd (sort angles) + 2 * pi]"]
    by (simp add: spec_angle_increments_def)
qed

lemma sort_hex_ring_angles: "sort hex_ring_angles = hex_ring_angles"
proof -
  have "sorted hex_ring_angles"
    using pi_gt_zero by (simp add: hex_ring_angles_def)
  then show ?thesis by (rule sort_key_id_if_sorted[where f = "\<lambda>x. x", simplified])
qed

lemma np_remainder_small: "0 \<le> a \<Longrightarrow> a < m \<Longrightarrow> np_remainder a m = a"
proof -
  assume a: "0 \<le> a" "a < m"
  then have "\<lfloor>a / m\<rfloor> = 0" by (simp add: floor_eq_iff)
  then show ?thesis by (simp add: np_remainder_def)
qed

lemma spec_corner: "spec_angle_increments [0, pi / 2] = [pi / 2, 3 * pi / 2]"
  using pi_gt_zero by (simp add: spec_angle_increments_def np_diff_def)

lemma sqrt2_far: "\<not> sqrt 2 < 6 / 5"
proof -
  have "(6 / 5 :: real)\<^sup>2 < 2" by (simp add: power2_eq_square)
  then have "6 / 5 < sqrt 2" by (rule real_less_rsqrt)
  then show ?thesis by simp
qed

lemma corner_rows:
  "row_of corner (6 / 5) 10 0 = Inr [Val 1, Val 0, Val (pi / 2), Val 0, Val 0, Val 2, Val 1, Val 1]"
  "row_of corner (6 / 5) 10 1 = Inr [Val 1, Val 0, NaN, NaN, Val pi, Val 1, Val 1, Val 1]"
  "row_of corner (6 / 5) 10 2 = Inr [Val 1, Val 0, NaN, NaN, Val (3 * pi / 2), Val 1, Val 1, Val 1]"
proof -
  have q0: "drop 1 (query_row corner (0, 0) 10 (Some (6/5))) = [1, 2, 3, 3, 3, 3, 3, 3, 3]"
    by (simp add: corner_def query_row_def found_neighbors_def within_bound_def upt3 Let_def
      distance_def norm2_def numeral_eq_Suc)
  have q1: "drop 1 (query_row corner (1, 0) 10 (Some (6/5))) = [0, 3, 3, 3, 3, 3, 3, 3, 3]"
    using sqrt2_far
    by (simp add: corner_def query_row_def found_neighbors_def within_bound_def upt3 Let_def
      distance_def norm2_def numeral_eq_Suc)
  have q2: "drop 1 (query_row corner (0, 1) 10 (Some (6/5))) = [0, 3, 3, 3, 3, 3, 3, 3, 3]"
    using sqrt2_far
    by (simp add: corner_def query_row_def found_neighbors_def within_bound_def upt3 Let_def
      distance_def norm2_def numeral_eq_Suc)
  have r: "np_remainder (pi / 2) (2 * pi) = pi / 2" "np_remainder 0 (2 * pi) = 0"
    "np_remainder pi (2 * pi) = pi"
    using pi_gt_zero by (simp_all add: np_remainder_small)
  have "\<lfloor>- (1 / 4 :: real)\<rfloor> = - 1" by (simp add: floor_eq_iff)
  then have r': "np_remainder (- (pi / 2)) (2 * pi) = 3 * pi / 2"
    using pi_gt_zero by (simp add: np_remainder_def)
  have s: "sort [0, pi / 2] = [0, pi / 2]"
    using pi_gt_zero by simp
  show "row_of corner (6 / 5) 10 0 = Inr [Val 1, Val 0, Val (pi / 2), Val 0, Val 0, Val 2, Val 1, Val 1]"
    unfolding row_of_def using q0 pi_gt_zero
    by (simp add: point_features_def corner_def np_take_def norm2_def arctan2_def r s
        angle_increments_of_def np_min_def np_max_def np_array_def np_diff_def np_mean_def
        np_std_def Let_def)
  show "row_of corner (6 / 5) 10 1 = Inr [Val 1, Val 0, NaN, NaN, Val pi, Val 1, Val 1, Val 1]"
    unfolding row_of_def using q1 pi_gt_zero
    by (simp add: point_features_def corner_def np_take_def norm2_def arctan2_def r s
        angle_increments_of_def np_min_def np_max_def np_array_def np_diff_def np_mean_def
        np_std_def Let_def)
  show "row_of corner (6 / 5) 10 2 = Inr [Val 1, Val 0, NaN, NaN, Val (3 * pi / 2), Val 1, Val 1, Val 1]"
    unfolding row_of_def using q2 pi_gt_zero
    by (simp add: point_features_def corner_def np_take_def norm2_def arctan2_def r r' s
        angle_increments_of_def np_min_def np_max_def np_array_def np_diff_def np_mean_def
        np_std_def Let_def)
qed

lemma corner_features:
  "get_nn_features corner corner (6 / 5) 10 =
     Inr [[Val 1, Val 0, Val (pi / 2), Val 0, Val 0, Val 2, Val 1, Val 1],
          [Val 1, Val 0, NaN, NaN, Val pi, Val 1, Val 1, Val 1],
          [Val 1, Val 0, NaN, NaN, Val (3 * pi / 2), Val 1, Val 1, Val 1]]"
proof -
  have "length corner = 3" by (simp add: corner_def)
  then show ?thesis
    using corner_rows by (simp add: get_nn_features_rows upt3)
qed

lemma spec_corner_stats:
  "np_mean (spec_angle_increments [0, pi / 2]) = Val pi"
  "np_std (spec_angle_increments [0, pi / 2]) = Val (pi / 2)"
proof -
  have "sqrt ((pi / 2)\<^sup>2) = pi / 2"
    using pi_gt_zero by simp
  moreover have "((pi / 2 - pi)\<^sup>2 + (3 * pi / 2 - pi)\<^sup>2) / 2 = (pi / 2)\<^sup>2"
    by (simp add: power2_eq_square field_simps)
  ultimately show "np_std (spec_angle_increments [0, pi / 2]) = Val (pi / 2)"
    by (simp add: spec_corner np_std_def Let_def)
  show "np_mean (spec_angle_increments [0, pi / 2]) = Val pi"
    by (simp add: spec_corner np_mean_def)
qed

lemma arctan_sqrt3: "arctan (sqrt 3) = pi / 3"
proof (rule arctan_unique)
  show "- (pi / 2) < pi / 3" using pi_gt_zero by linarith
  show "pi / 3 < pi / 2" using pi_gt_zero by linarith
  show "tan (pi / 3) = sqrt 3" by (rule tan_60)
qed

lemma ring_distance: "sqrt (25 + (5 * sqrt 3)\<^sup>2) = 10"
proof -
  have "(5 * sqrt 3)\<^sup>2 = 75" by (simp add: power_mult_distrib)
  then have "sqrt (25 + (5 * sqrt 3)\<^sup>2) = sqrt (10\<^sup>2)" by simp
  then show ?thesis by simp
qed

lemma hexagon_query:
  "filter (\<lambda>j. j \<noteq> length hexagon) (drop 1 (query_row hexagon (0, 0) 10 (Some 11)))
     = [1, 2, 3, 4, 5, 6]"
  using ring_distance
  by (simp add: hexagon_def query_row_def found_neighbors_def within_bound_def upt7 Let_def
      distance_def norm2_def numeral_eq_Suc)


lemma hexagon_angles:
  "map (\<lambda>d. np_remainder (arctan2 (snd d) (fst d)) (2 * pi))
     [(10, 0), (5, 5 * sqrt 3), (- 5, 5 * sqrt 3), (- 10, 0), (- 5, - (5 * sqrt 3)), (5, - (5 * sqrt 3))]
   = hex_ring_angles"
proof -
  have a: "arctan2 0 10 = 0" "arctan2 (5 * sqrt 3) 5 = pi / 3"
    "arctan2 (5 * sqrt 3) (- 5) = 2 * pi / 3" "arctan2 0 (- 10) = pi"
    "arctan2 (- (5 * sqrt 3)) (- 5) = - (2 * pi / 3)" "arctan2 (- (5 * sqrt 3)) 5 = - (pi / 3)"
    by (simp_all add: arctan2_def arctan_sqrt3 arctan_minus)
  have "\<lfloor>- (1 / 3 :: real)\<rfloor> = - 1" "\<lfloor>- (1 / 6 :: real)\<rfloor> = - 1"
    by (simp_all add: floor_eq_iff)
  then have r: "np_remainder (- (2 * pi / 3)) (2 * pi) = 4 * pi / 3"
    "np_remainder (- (pi / 3)) (2 * pi) = 5 * pi / 3"
    using pi_gt_zero by (simp_all add: np_remainder_def)
  have r2: "np_remainder 0 (2 * pi) = 0" "np_remainder (pi / 3) (2 * pi) = pi / 3"
    "np_remainder (2 * pi / 3) (2 * pi) = 2 * pi / 3" "np_remainder pi (2 * pi) = pi"
    using pi_gt_zero by (simp_all add: np_remainder_small)
  show ?thesis
    by (simp only: list.map fst_conv snd_conv a r r2 hex_ring_angles_def)
qed


lemma point_features_eval:
  assumes "np_take coordinates (filter (\<lambda>j. j \<noteq> length coordinates) nns0) = Inr nn_coords"
    and "map (\<lambda>q. (fst q - fst (coordinates ! i), snd q - snd (coordinates ! i))) nn_coords = d"
    and "map norm2 d = lengths"
    and "map (\<lambda>d. np_remainder (arctan2 (snd d) (fst d)) (2 * pi)) d = angles"
    and "angle_increments_of angles = Inr incs"
    and "np_min angles = Inr amin"
    and "np_min lengths = Inr lmin"
    and "np_max lengths = Inr lmax"
  shows "point_features coordinates i nns0 =
           Inr [np_mean lengths, np_std lengths, np_mean incs, np_std incs, Val amin,
                Val (real (length (filter (\<lambda>j. j \<noteq> length coordinates) nns0))),
                Val lmin, Val lmax]"
  unfolding point_features_def Let_def by (simp only: assms then_do_Inr)

lemma hexagon_centre_row:
  "row_of hexagon 11 10 0 = Inr [Val 10, Val 0, Val (pi / 3), Val 0, Val 0, Val 6, Val 10, Val 10]"
proof -
  let ?d = "[(10, 0), (5, 5 * sqrt 3), (- 5, 5 * sqrt 3), (- 10, 0), (- 5, - (5 * sqrt 3)),
             (5, - (5 * sqrt 3))] :: point list"
  have q: "filter (\<lambda>j. j \<noteq> length hexagon) (drop 1 (query_row hexagon (hexagon ! 0) 10 (Some 11)))
             = [1, 2, 3, 4, 5, 6]"
    using hexagon_query by (simp add: hexagon_def)
  have take: "np_take hexagon (filter (\<lambda>j. j \<noteq> length hexagon)
                 (drop 1 (query_row hexagon (hexagon ! 0) 10 (Some 11)))) = Inr ?d"
    unfolding q by (simp add: np_take_def hexagon_def)
  have d: "map (\<lambda>q. (fst q - fst (hexagon ! 0), snd q - snd (hexagon ! 0))) ?d = ?d"
    by (simp add: hexagon_def)
  have lengths: "map norm2 ?d = [10, 10, 10, 10, 10, 10]"
    using ring_distance by (simp add: norm2_def)
  have incs: "angle_increments_of hex_ring_angles = Inr [pi / 3, pi / 3, pi / 3, pi / 3, pi / 3]"
    by (simp add: angle_increments_of_nonempty sort_hex_ring_angles np_diff_def hex_ring_angles_def)
  have amin: "np_min hex_ring_angles = Inr 0"
    using pi_gt_zero by (simp add: np_min_def hex_ring_angles_def)
  have lmin: "np_min [10, 10, 10, 10, 10, 10] = Inr 10" and lmax: "np_max [10, 10, 10, 10, 10, 10] = Inr 10"
    by (simp_all add: np_min_def np_max_def)
  from point_features_eval[OF take d lengths hexagon_angles incs amin lmin lmax]
  show ?thesis
    unfolding row_of_def q by (simp add: np_mean_def np_std_def)
qed

text \<open>
  C1, on the code. For the ring of six neighbours at 0, 60, ..., 300 degrees (the centre
  of a hexagon of side 10, searched with radius 11) the code returns five increments
  of 60 degrees: their mean is 60 degrees and their standard deviation 0, but they sum
  to 300 degrees, not to \<open>2\<pi>\<close>. The increment from the last angle back to the first is
  missing, because line 366 passes the first angle plus \<open>2\<pi>\<close> to \<^verbatim>\<open>np.array\<close> as its
  second argument instead of appending it. The increments the specification describes
  are six and sum to \<open>2\<pi>\<close>. The difference shows in the features: for the point
  (0, 0) with neighbours at 0 and 90 degrees the function returns mean increment 90
  degrees and deviation 0 (entries 2 and 3 of the first row), where the
  specification's increments have mean 180 and deviation 90 degrees; a point with a
  single neighbour gets nan.
\<close>

theorem increments_miss_wraparound:
  "row_of hexagon 11 10 0 =
     Inr [Val 10, Val 0, Val (pi / 3), Val 0, Val 0, Val 6, Val 10, Val 10] \<and>
   angle_increments_of hex_ring_angles = Inr [pi / 3, pi / 3, pi / 3, pi / 3, pi / 3] \<and>
   sum_list [pi / 3, pi / 3, pi / 3, pi / 3, pi / 3 :: real] = 5 * pi / 3 \<and>
   5 * pi / 3 < 2 * pi \<and>
   np_mean [pi / 3, pi / 3, pi / 3, pi / 3, pi / 3] = Val (pi / 3) \<and>
   np_std [pi / 3, pi / 3, pi / 3, pi / 3, pi / 3] = Val 0 \<and>
   sum_list (spec_angle_increments hex_ring_angles) = 2 * pi \<and>
   length (spec_angle_increments hex_ring_angles) = 6 \<and>
   get_nn_features corner corner (6 / 5) 10 =
     Inr [[Val 1, Val 0, Val (pi / 2), Val 0, Val 0, Val 2, Val 1, Val 1],
          [Val 1, Val 0, NaN, NaN, Val pi, Val 1, Val 1, Val 1],
          [Val 1, Val 0, NaN, NaN, Val (3 * pi / 2), Val 1, Val 1, Val 1]] \<and>
   np_mean (spec_angle_increments [0, pi / 2]) = Val pi \<and>
   np_std (spec_angle_increments [0, pi / 2]) = Val (pi / 2)"
proof -
  have ne: "hex_ring_angles \<noteq> []" by (simp add: hex_ring_angles_def)
  have "np_diff hex_ring_angles = [pi / 3, pi / 3, pi / 3, pi / 3, pi / 3]"
    by (simp add: np_diff_def hex_ring_angles_def)
  then have "angle_increments_of hex_ring_angles = Inr [pi / 3, pi / 3, pi / 3, pi / 3, pi / 3]"
    by (simp add: angle_increments_of_nonempty[OF ne] sort_hex_ring_angles)
  moreover have "length hex_ring_angles = 6" by (simp add: hex_ring_angles_def)
  ultimately show ?thesis
    using spec_increments_sum[OF ne] pi_gt_zero corner_features spec_corner_stats
      hexagon_centre_row
    by (simp add: np_mean_def np_std_def)
qed

section \<open>Properties of the interior mask and the alignment of the arrays\<close>

lemma length_off_edge [simp]: "length (off_edge features) = length features"
  by (simp add: off_edge_def column_def)

lemma off_edge_nth:
  "i < length features \<Longrightarrow> off_edge features ! i = f64_ge (features ! i ! 5) 5"
  by (simp add: off_edge_def column_def)

lemma mask_rows: "map fst (filter snd (zip xs (map Q xs))) = filter Q xs"
  by (induction xs) auto


lemma filtered_features_eq:
  "filtered_features features = Inr (filter (\<lambda>row. f64_ge (row ! 5) 5) features)"
proof -
  have "off_edge features = map (\<lambda>row. f64_ge (row ! 5) 5) features"
    by (simp add: off_edge_def column_def)
  then show ?thesis
    by (simp add: filtered_features_def np_mask_def mask_rows)
qed

text \<open>
  C5. For a feature array (rows of 8 entries) the mask is True exactly for the rows
  whose entry 5 is a number at least 5, and the filtered array is the rows of the
  feature array that satisfy this, in order. A row with exactly 4 valid neighbours is
  left out, a row with exactly 5 is kept.
\<close>

theorem interior_filter_boundary:
  assumes "\<forall>row\<in>set features. length row = 8"
  shows "filtered_features features = Inr (filter (\<lambda>row. f64_ge (row ! 5) 5) features) \<and>
         (\<forall>i<length features.
            off_edge features ! i \<longleftrightarrow> (\<exists>c. features ! i ! 5 = Val c \<and> 5 \<le> c)) \<and>
         (\<forall>i<length features. features ! i ! 5 = Val 4 \<longrightarrow> \<not> off_edge features ! i) \<and>
         (\<forall>i<length features. features ! i ! 5 = Val 5 \<longrightarrow> off_edge features ! i)"
  by (auto simp: filtered_features_eq off_edge_nth f64_ge_def split: float64.splits)

theorem interior_filter_boundary_witness:
  "filtered_features boundary_rows
     = Inr [[Val 1, Val 0, Val 1, Val 0, Val 0, Val 5, Val 1, Val 1],
            [Val 1, Val 0, Val 1, Val 0, Val 0, Val 6, Val 1, Val 1]] \<and>
   \<not> off_edge boundary_rows ! 0 \<and> off_edge boundary_rows ! 1 \<and> off_edge boundary_rows ! 2"
proof -
  have rows: "\<forall>row\<in>set boundary_rows. length row = 8"
    by (simp add: boundary_rows_def)
  have "boundary_rows ! 0 ! 5 = Val 4" "boundary_rows ! 1 ! 5 = Val 5"
    "boundary_rows ! 2 ! 5 = Val 6" "length boundary_rows = 3"
    by (simp_all add: boundary_rows_def)
  with interior_filter_boundary[OF rows] show ?thesis
    by (simp add: boundary_rows_def f64_ge_def)
qed



lemma length_seven_in_a_row [simp]: "length seven_in_a_row = 7"
  by (simp add: seven_in_a_row_def)




section \<open>Properties of the label propagation\<close>

lemma hd_sort_key_least:
  assumes "xs \<noteq> []"
  shows "hd (sort_key f xs) \<in> set xs \<and> (\<forall>j\<in>set xs. f (hd (sort_key f xs)) \<le> f j)"
proof -
  let ?s = "sort_key f xs"
  have ne: "?s \<noteq> []" using assms by (metis length_0_conv length_sort)
  then obtain a r where s: "?s = a # r" by (cases ?s) auto
  have "sorted (map f ?s)" by (rule sorted_sort_key)
  with s have "\<forall>j\<in>set ?s. f a \<le> f j" by auto
  moreover have "set ?s = set xs" by simp
  ultimately show ?thesis using s by (metis list.sel(1) list.set_intros(1))
qed

lemma query_nearest_empty: "query_nearest [] x = 0"
  by (simp add: query_nearest_def query_row_def found_neighbors_def)

lemma query_nearest_is_nearest:
  assumes "data \<noteq> []"
  shows "query_nearest data x < length data \<and>
         (\<forall>j<length data. distance x (data ! query_nearest data x) \<le> distance x (data ! j))"
proof -
  let ?all = "[0..<length data]"
  let ?s = "sort_key (\<lambda>j. distance x (data ! j)) ?all"
  have ne: "?all \<noteq> []" using assms by simp
  then have sne: "?s \<noteq> []" by (metis length_0_conv length_sort)
  have "found_neighbors data x 1 None = take 1 ?s"
    by (simp add: found_neighbors_def within_bound_def)
  then have "query_nearest data x = hd ?s"
    using sne by (cases ?s) (simp_all add: query_nearest_def query_row_def Let_def)
  with hd_sort_key_least[OF ne, of "\<lambda>j. distance x (data ! j)"] show ?thesis
    by simp
qed

lemma length_concat_rows: "length (concat (map (\<lambda>y. map (g y) [0..<w]) [0..<h])) = h * w"
  by (induction h) simp_all

lemma concat_rows_nth:
  "x < w \<Longrightarrow> y < h \<Longrightarrow> concat (map (\<lambda>y. map (g y) [0..<w]) [0..<h]) ! (y * w + x) = g y x"
proof (induction h)
  case 0
  then show ?case by simp
next
  case (Suc h)
  show ?case
  proof (cases "y < h")
    case True
    then have "Suc y * w \<le> h * w"
      by (intro mult_le_mono1) simp
    with Suc.prems(1) have "y * w + x < h * w"
      by simp
    with Suc True show ?thesis
      by (simp add: nth_append length_concat_rows)
  next
    case False
    with Suc.prems have "y = h" by simp
    with Suc.prems show ?thesis
      by (simp add: nth_append length_concat_rows)
  qed
qed


lemma labeled_image_pixels:
  assumes ok: "\<forall>c\<in>set (pixel_coords h w). query_nearest pts c < length labels"
  shows "\<exists>img. labeled_image pts labels (h, w) = Inr img \<and> length img = h \<and>
           (\<forall>row\<in>set img. length row = w) \<and>
           (\<forall>y<h. \<forall>x<w. img ! y ! x = labels ! query_nearest pts (real x, real y))"
proof -
  let ?near = "map (query_nearest pts) (pixel_coords h w)"
  let ?cls = "map (\<lambda>j. labels ! j) ?near"
  let ?img = "map (\<lambda>y. take w (drop (y * w) ?cls)) [0..<h]"
  have len: "length ?cls = h * w"
    by (simp add: pixel_coords_def length_concat_rows)
  have take: "np_take labels ?near = Inr ?cls"
    using ok by (intro np_take_valid) simp
  have img: "labeled_image pts labels (h, w) = Inr ?img"
    using len by (simp add: labeled_image_def Let_def take np_reshape_def)
  have rows: "\<forall>row\<in>set ?img. length row = w"
  proof
    fix row assume "row \<in> set ?img"
    then obtain y where y: "y < h" and row: "row = take w (drop (y * w) ?cls)" by auto
    from y have "Suc y * w \<le> h * w" by (intro mult_le_mono1) simp
    then have "w \<le> h * w - y * w" by simp
    with row len show "length row = w" by simp
  qed
  have px: "\<forall>y<h. \<forall>x<w. ?img ! y ! x = labels ! query_nearest pts (real x, real y)"
  proof (intro allI impI)
    fix y x assume y: "y < h" and x: "x < w"
    from y have "Suc y * w \<le> h * w" by (intro mult_le_mono1) simp
    with x have lt: "y * w + x < h * w" by simp
    have "pixel_coords h w ! (y * w + x) = (real x, real y)"
      unfolding pixel_coords_def by (rule concat_rows_nth[OF x y])
    moreover have "?img ! y ! x = ?cls ! (y * w + x)"
      using y x lt len by simp
    ultimately show "?img ! y ! x = labels ! query_nearest pts (real x, real y)"
      using lt len by (simp add: pixel_coords_def length_concat_rows)
  qed
  from img rows px show ?thesis by (intro exI[of _ ?img]) simp
qed

lemma pixel_in_image:
  "x < w \<Longrightarrow> y < h \<Longrightarrow> (real x, real y) \<in> set (pixel_coords h w)"
  by (force simp: pixel_coords_def)

text \<open>
  C7. With at least one interior point and one label per interior point the stage
  returns a label image. The image has the source image's \<open>h\<close> rows of \<open>w\<close> pixels,
  and the pixel in row \<open>y\<close> and column \<open>x\<close> carries the label of an interior point
  that is nearest to (x, y): no interior point is closer.
\<close>

theorem label_image_nearest_point:
  assumes "pts \<noteq> []" and "length labels = length pts"
  shows "\<exists>img. labeled_image pts labels (h, w) = Inr img \<and>
           length img = h \<and> (\<forall>row\<in>set img. length row = w) \<and>
           (\<forall>y<h. \<forall>x<w. \<exists>j<length pts. img ! y ! x = labels ! j \<and>
              (\<forall>j'<length pts. distance (real x, real y) (pts ! j)
                                \<le> distance (real x, real y) (pts ! j')))"
proof -
  have near: "\<And>c. query_nearest pts c < length pts \<and>
         (\<forall>j<length pts. distance c (pts ! query_nearest pts c) \<le> distance c (pts ! j))"
    by (rule query_nearest_is_nearest[OF assms(1)])
  then have "\<forall>c\<in>set (pixel_coords h w). query_nearest pts c < length labels"
    using assms(2) by simp
  from labeled_image_pixels[OF this] obtain img where
    img: "labeled_image pts labels (h, w) = Inr img" "length img = h"
      "\<forall>row\<in>set img. length row = w"
      "\<forall>y<h. \<forall>x<w. img ! y ! x = labels ! query_nearest pts (real x, real y)"
    by blast
  have "\<forall>y<h. \<forall>x<w. \<exists>j<length pts. img ! y ! x = labels ! j \<and>
            (\<forall>j'<length pts. distance (real x, real y) (pts ! j)
                              \<le> distance (real x, real y) (pts ! j'))"
  proof (intro allI impI)
    fix y x assume "y < h" and "x < w"
    with img(4) near[of "(real x, real y)"]
    show "\<exists>j<length pts. img ! y ! x = labels ! j \<and>
            (\<forall>j'<length pts. distance (real x, real y) (pts ! j)
                              \<le> distance (real x, real y) (pts ! j'))"
      by (intro exI[of _ "query_nearest pts (real x, real y)"]) simp
  qed
  with img show ?thesis by blast
qed

lemma two_labelled_nearest:
  "query_nearest two_labelled (0, 0) = 0" "query_nearest two_labelled (1, 0) = 0"
  "query_nearest two_labelled (2, 0) = 1" "query_nearest two_labelled (3, 0) = 1"
  by (simp_all add: query_nearest_def query_row_def found_neighbors_def within_bound_def
      two_labelled_def upt_rec Let_def)

lemma two_labelled_image: "labeled_image two_labelled [7, 9] (1, 4) = Inr [[7, 7, 9, 9]]"
  by (simp add: labeled_image_def pixel_coords_def upt4 two_labelled_nearest np_take_def
      np_reshape_def Let_def)

theorem label_image_nearest_point_witness:
  "labeled_image two_labelled [7, 9] (1, 4) = Inr [[7, 7, 9, 9]] \<and>
   (\<exists>j<length two_labelled. [[7, 7, 9, 9]] ! 0 ! 2 = [7, 9 :: int] ! j \<and>
      (\<forall>j'<length two_labelled. distance (2, 0) (two_labelled ! j) \<le> distance (2, 0) (two_labelled ! j')))"
proof -
  have ne: "two_labelled \<noteq> []" and l: "length [7, 9 :: int] = length two_labelled"
    by (simp_all add: two_labelled_def)
  from label_image_nearest_point[OF ne l, of 1 4] two_labelled_image
  have "\<forall>y<1. \<forall>x<4. \<exists>j<length two_labelled. [[7, 7, 9, 9]] ! y ! x = [7, 9 :: int] ! j \<and>
            (\<forall>j'<length two_labelled. distance (real x, real y) (two_labelled ! j)
                              \<le> distance (real x, real y) (two_labelled ! j'))"
    by auto
  then have "\<exists>j<length two_labelled. [[7, 7, 9, 9]] ! 0 ! 2 = [7, 9 :: int] ! j \<and>
            (\<forall>j'<length two_labelled. distance (real 2, real 0) (two_labelled ! j)
                              \<le> distance (real 2, real 0) (two_labelled ! j'))"
    by (metis zero_less_one numeral_less_iff semiring_norm(76,78))
  then show ?thesis using two_labelled_image by simp
qed

text \<open>
  C9. With at least one interior point and one label per interior point, the query of
  every pixel returns an index into the label vector and the stage returns an image in
  which every pixel has its label. With no interior point (and so no label) the query
  returns the index 0 for every pixel, the lookup in the empty label vector is out of
  bounds, and the stage raises IndexError as soon as the image has a pixel.
\<close>

theorem label_propagation_needs_interior_point:
  "(pts \<noteq> [] \<and> length labels = length pts \<longrightarrow>
      (\<forall>c. query_nearest pts c < length labels) \<and>
      (\<exists>img. labeled_image pts labels (h, w) = Inr img \<and> length img = h \<and>
         (\<forall>row\<in>set img. length row = w) \<and>
         (\<forall>y<h. \<forall>x<w. img ! y ! x = labels ! query_nearest pts (real x, real y)))) \<and>
   (0 < h \<and> 0 < w \<longrightarrow>
      query_nearest [] (0, 0) = 0 \<and>
      np_take ([] :: int list) [query_nearest [] (0, 0)] = Inl IndexError_out_of_bounds \<and>
      labeled_image [] [] (h, w) = Inl IndexError_out_of_bounds)"
proof (intro conjI impI)
  assume a: "pts \<noteq> [] \<and> length labels = length pts"
  then show "\<forall>c. query_nearest pts c < length labels"
    using query_nearest_is_nearest[of pts] by simp
  then have "\<forall>c\<in>set (pixel_coords h w). query_nearest pts c < length labels"
    by blast
  from labeled_image_pixels[OF this]
  show "\<exists>img. labeled_image pts labels (h, w) = Inr img \<and> length img = h \<and>
         (\<forall>row\<in>set img. length row = w) \<and>
         (\<forall>y<h. \<forall>x<w. img ! y ! x = labels ! query_nearest pts (real x, real y))" .
next
  assume "0 < h \<and> 0 < w"
  show "query_nearest [] (0, 0) = 0" by (rule query_nearest_empty)
  show "np_take ([] :: int list) [query_nearest [] (0, 0)] = Inl IndexError_out_of_bounds"
    by (simp add: np_take_def)
  show "labeled_image [] [] (h, w) = Inl IndexError_out_of_bounds"
  proof -
    have "(real 0, real 0) \<in> set (pixel_coords h w)"
      using \<open>0 < h \<and> 0 < w\<close> by (intro pixel_in_image) simp_all
    then have "pixel_coords h w \<noteq> []" by auto
    then have "\<not> list_all (\<lambda>j. j < length ([] :: int list))
                 (map (query_nearest []) (pixel_coords h w))"
      by (cases "pixel_coords h w") simp_all
    then show ?thesis
      by (simp add: labeled_image_def Let_def np_take_def)
  qed
qed

theorem label_propagation_needs_interior_point_witness:
  "labeled_image two_labelled [7, 9] (1, 4) = Inr [[7, 7, 9, 9]] \<and>
   labeled_image [] [] (1, 4) = Inl IndexError_out_of_bounds"
proof -
  have "two_labelled \<noteq> [] \<and> length [7, 9 :: int] = length two_labelled"
    by (simp add: two_labelled_def)
  with label_propagation_needs_interior_point[of two_labelled "[7, 9]" 1 4]
  show ?thesis using two_labelled_image by simp
qed

section \<open>Properties of the hash check\<close>

text \<open>
  C4. Whatever digest differs from the expected one (the empty output of a failed
  \<^verbatim>\<open>sha256sum\<close> included), the cell prints the warning and nothing else, its
  status is 0, the cell magic raises nothing, and the cells after it run as they would
  have.
\<close>

theorem hash_mismatch_only_warns:
  assumes "hash \<noteq> expected_digest"
  shows "hash_check_cell hash =
           ([''Wrong hash! This may be the wrong file, or it may have been tampered with.''], 0) \<and>
         bash_cell_magic (hash_check_cell hash) =
           Inr [''Wrong hash! This may be the wrong file, or it may have been tampered with.''] \<and>
         run_after_hash_check hash later_cells = later_cells"
  using assms
  by (simp add: hash_check_cell_def bash_test_eq_def bash_cell_magic_def run_after_hash_check_def)

theorem hash_mismatch_only_warns_witness:
  "''0000'' \<noteq> expected_digest \<and>
   bash_cell_magic (hash_check_cell ''0000'') =
     Inr [''Wrong hash! This may be the wrong file, or it may have been tampered with.''] \<and>
   run_after_hash_check ''0000'' (Inr (1 :: nat)) = Inr 1 \<and>
   run_after_hash_check [] (Inr (1 :: nat)) = Inr 1"
proof -
  have a: "''0000'' \<noteq> expected_digest" and b: "[] \<noteq> expected_digest"
    by (simp_all add: expected_digest_def)
  show ?thesis
    using hash_mismatch_only_warns[OF a, of "Inr (1 :: nat)"]
      hash_mismatch_only_warns[OF b, of "Inr (1 :: nat)"] a
    by blast
qed

lemma hash_match_reports_ok:
  "hash_check_cell expected_digest = ([''Hash is ok''], 0)"
  by (simp add: hash_check_cell_def bash_test_eq_def expected_digest_def)

section \<open>Properties of the min-max rescaling\<close>























end
